theory Spec2Isabelle
  imports
    Main
    "HOL-Library.Char_ord"
    "HOL-Library.List_Lexorder"
    "HOL-Library.Product_Lexorder"
begin

unbundle bit_operations_syntax

section \<open>Python primitives used by the script\<close>

text \<open>
  A Python \<open>str\<close> is modelled as a \<^typ>\<open>string\<close>: one \<^typ>\<open>char\<close> per code point,
  for the code points below 256. Python's \<open><\<close> on \<open>str\<close> compares code points
  lexicographically, a proper prefix being smaller: that is the order on \<^typ>\<open>string\<close>
  given by \<open>Char_ord\<close> and \<open>List_Lexorder\<close>. Tuples compare lexicographically
  (\<open>Product_Lexorder\<close>). Python's \<open>int\<close> is \<^typ>\<open>int\<close>, and \<open>&\<close> on it is \<open>AND\<close>
  (two's complement for negative numbers in both).
\<close>

datatype error = IndexError | ValueError | NameError

definition py_index :: "'a list \<Rightarrow> nat \<Rightarrow> error + 'a" where
  \<comment> \<open>\<open>xs[i]\<close> for a constant \<open>i \<ge> 0\<close>\<close>
  "py_index xs i = (if i < length xs then Inr (xs ! i) else Inl IndexError)"

fun split_at :: "(char \<Rightarrow> bool) \<Rightarrow> string \<Rightarrow> string list" where
  "split_at p [] = [[]]"
| "split_at p (c # cs) =
     (if p c then [] # split_at p cs
      else (case split_at p cs of
              [] \<Rightarrow> [[c]]
            | w # ws \<Rightarrow> (c # w) # ws))"

definition split_tab :: "string \<Rightarrow> string list" where
  \<comment> \<open>\<open>s.split('\t')\<close>: every tab separates, empty fields are kept\<close>
  "split_tab s = split_at (\<lambda>c. c = CHR 0x09) s"

definition split_colon :: "string \<Rightarrow> string list" where
  \<comment> \<open>\<open>s.split(':')\<close>\<close>
  "split_colon s = split_at (\<lambda>c. c = CHR '':'') s"

definition py_isspace :: "char \<Rightarrow> bool" where
  \<comment> \<open>the code points below 256 for which \<open>str.isspace\<close> holds\<close>
  "py_isspace c = ((of_char c :: nat) \<in> {9, 10, 11, 12, 13, 28, 29, 30, 31, 32, 133, 160})"

definition split_ws :: "string \<Rightarrow> string list" where
  \<comment> \<open>\<open>s.split()\<close>: runs of whitespace separate, no empty word is returned\<close>
  "split_ws s = filter (\<lambda>w. w \<noteq> []) (split_at py_isspace s)"

definition startswith_at :: "string \<Rightarrow> bool" where
  \<comment> \<open>\<open>line.startswith('@')\<close>\<close>
  "startswith_at s = (case s of [] \<Rightarrow> False | c # _ \<Rightarrow> c = CHR ''@'')"

subsection \<open>\<open>int(s)\<close> on a string\<close>

definition int_space :: "char \<Rightarrow> bool" where
  \<comment> \<open>the whitespace \<open>int()\<close> strips at both ends (code points below 256)\<close>
  "int_space c = ((of_char c :: nat) \<in> {9, 10, 11, 12, 13, 32, 133, 160})"

definition is_digit :: "char \<Rightarrow> bool" where
  "is_digit c = (48 \<le> (of_char c :: nat) \<and> (of_char c :: nat) \<le> 57)"

definition digit_val :: "char \<Rightarrow> int" where
  "digit_val c = int (of_char c) - 48"

fun digits_first :: "int \<Rightarrow> string \<Rightarrow> int option"
  and digits_rest :: "int \<Rightarrow> string \<Rightarrow> int option" where
  "digits_first acc [] = None"
| "digits_first acc (c # cs) =
     (if is_digit c then digits_rest (10 * acc + digit_val c) cs else None)"
| "digits_rest acc [] = Some acc"
| "digits_rest acc (c # cs) =
     (if is_digit c then digits_rest (10 * acc + digit_val c) cs
      else if c = CHR ''_'' then digits_first acc cs
      else None)"

definition py_strip :: "string \<Rightarrow> string" where
  "py_strip s = rev (dropWhile int_space (rev (dropWhile int_space s)))"

definition py_int :: "string \<Rightarrow> error + int" where
  \<comment> \<open>base 10: optional sign, then digits, single underscores between digits allowed;
      the bound newer interpreters put on the number of digits is left out\<close>
  "py_int s =
     (case (case py_strip s of
              [] \<Rightarrow> None
            | c # cs \<Rightarrow>
                if c = CHR ''-'' then map_option uminus (digits_first 0 cs)
                else if c = CHR ''+'' then digits_first 0 cs
                else digits_first 0 (c # cs)) of
        None \<Rightarrow> Inl ValueError
      | Some n \<Rightarrow> Inr n)"

section \<open>The command line and the globals\<close>

record config =
  pe :: bool
  umi :: bool
  qual :: bool
  umi_list :: "string list"

text \<open>
  \<open>pe\<close>, \<open>umi\<close> and \<open>qual\<close> are \<open>args.pe\<close>, \<open>args.umi\<close> and \<open>args.qual\<close>;
  \<open>umi_list\<close> is the global list read from \<open>STL96.txt\<close>, one stripped line per
  entry, and \<open>[]\<close> when \<open>args.umi\<close> is not set. Sorting by the external tool
  (\<open>args.sort\<close>) happens before the pass and is outside the model: the pass is given
  the lines of the file it reads.
\<close>

type_synonym key = "string \<times> int \<times> string \<times> string"

type_synonym dict = "(key \<times> (string \<times> string)) list"

record state =
  NR :: int
  UnMap :: int
  badBc :: int
  place :: dict
  dedup :: "string list"

text \<open>
  \<open>place\<close> is the Python dict, in insertion order: assigning to a key that is present
  keeps its position, a new key goes to the end. \<open>dedup\<close> is what has been written to
  the output file, one entry per line written.
\<close>

fun dict_set :: "key \<Rightarrow> string \<times> string \<Rightarrow> dict \<Rightarrow> dict" where
  "dict_set k v [] = [(k, v)]"
| "dict_set k v ((k', v') # d) =
     (if k' = k then (k, v) # d else (k', v') # dict_set k v d)"

definition dict_get :: "dict \<Rightarrow> key \<Rightarrow> (string \<times> string) option" where
  "dict_get d k = map_of d k"

definition COUNT :: "error + int" where
  \<comment> \<open>the module never assigns a global \<open>COUNT\<close>: reading it raises \<open>NameError\<close>\<close>
  "COUNT = Inl NameError"

section \<open>Class \<open>sam_info\<close>\<close>

record sam_info =
  self_line :: string
  self_contig :: string
  self_start_pos :: int
  self_qual_score :: string
  self_strand :: "string \<times> string option"
  self_BC :: string

definition soft_check :: "string \<Rightarrow> error + int" where
  "soft_check align =
     (case py_index align 1 of
        Inl e \<Rightarrow> Inl e
      | Inr c1 \<Rightarrow>
          if c1 = CHR ''S'' then
            (case py_index align 0 of
               Inl e \<Rightarrow> Inl e
             | Inr c0 \<Rightarrow> py_int [c0])
          else
            (case py_index align 2 of
               Inl e \<Rightarrow> Inl e
             | Inr c2 \<Rightarrow>
                 if c2 = CHR ''S'' then py_int (take 2 align)
                 else Inr 0))"

definition start_pos :: "string \<Rightarrow> error + int" where
  "start_pos line =
     (case py_index (split_tab line) 3 of
        Inl e \<Rightarrow> Inl e
      | Inr f \<Rightarrow>
     (case py_int f of
        Inl e \<Rightarrow> Inl e
      | Inr p \<Rightarrow>
     (case py_index (split_tab line) 5 of
        Inl e \<Rightarrow> Inl e
      | Inr align \<Rightarrow>
     (case soft_check align of
        Inl e \<Rightarrow> Inl e
      | Inr soft \<Rightarrow> Inr (if soft > 0 then p - soft else p)))))"

definition barcode_get :: "config \<Rightarrow> string \<Rightarrow> error + string" where
  "barcode_get cfg line =
     (case py_index (split_ws line) 0 of
        Inl e \<Rightarrow> Inl e
      | Inr name \<Rightarrow>
          (let bc = last (split_colon name) in
           if umi cfg then
             (if bc \<in> set (umi_list cfg) then Inr bc else Inr [])
           else Inr bc))"

definition bit_check :: "string \<Rightarrow> error + (string \<times> string option)" where
  \<comment> \<open>the \<open>else\<close> branch sets \<open>umap = None\<close> and then logs with \<open>co=COUNT\<close>\<close>
  "bit_check line =
     (case py_index (split_tab line) 1 of
        Inl e \<Rightarrow> Inl e
      | Inr f \<Rightarrow>
     (case py_int f of
        Inl e \<Rightarrow> Inl e
      | Inr flag \<Rightarrow>
     (case (if flag AND 4 \<noteq> 4 \<and> flag AND 256 \<noteq> 256 then Inr (Some [])
            else (case COUNT of Inl e \<Rightarrow> Inl e | Inr co \<Rightarrow> Inr None)) of
        Inl e \<Rightarrow> Inl e
      | Inr umap \<Rightarrow>
          Inr (if flag AND 16 = 16 then ''-'' else ''+'', umap))))"

definition sam_info_init :: "config \<Rightarrow> string \<Rightarrow> error + sam_info" where
  "sam_info_init cfg line =
     (case py_index (split_tab line) 2 of
        Inl e \<Rightarrow> Inl e
      | Inr c \<Rightarrow>
     (case start_pos line of
        Inl e \<Rightarrow> Inl e
      | Inr p \<Rightarrow>
     (case py_index (split_tab line) 4 of
        Inl e \<Rightarrow> Inl e
      | Inr q \<Rightarrow>
     (case bit_check line of
        Inl e \<Rightarrow> Inl e
      | Inr s \<Rightarrow>
     (case barcode_get cfg line of
        Inl e \<Rightarrow> Inl e
      | Inr bc \<Rightarrow>
          Inr \<lparr>self_line = line, self_contig = c, self_start_pos = p,
               self_qual_score = q, self_strand = s, self_BC = bc\<rparr>)))))"

section \<open>The pass over the file: \<open>inter_sam\<close>\<close>

definition key_of :: "sam_info \<Rightarrow> key" where
  "key_of r = (self_BC r, self_start_pos r, fst (self_strand r), self_contig r)"

definition record_step :: "config \<Rightarrow> state \<Rightarrow> sam_info \<Rightarrow> state" where
  \<comment> \<open>the body of the loop once the record is built; \<open>BC is ""\<close> holds for the
      empty string only (CPython has one empty \<open>str\<close> object)\<close>
  "record_step cfg st r =
     (if snd (self_strand r) = None then st\<lparr>UnMap := UnMap st + 1\<rparr>
      else if self_BC r = [] then st\<lparr>badBc := badBc st + 1\<rparr>
      else
        (case dict_get (place st) (key_of r) of
           Some old \<Rightarrow>
             if qual cfg then
               (if snd old < self_qual_score r then
                  st\<lparr>place := dict_set (key_of r) (self_line r, self_qual_score r) (place st)\<rparr>
                else st)
             else st
         | None \<Rightarrow>
             st\<lparr>place := dict_set (key_of r) (self_line r, self_qual_score r) (place st)\<rparr>))"

definition line_step :: "config \<Rightarrow> state \<Rightarrow> string \<Rightarrow> state \<times> error option" where
  \<comment> \<open>one iteration of \<open>for line in sam\<close>; an exception leaves the loop with the
      globals as they are\<close>
  "line_step cfg st line =
     (if startswith_at line then (st\<lparr>dedup := dedup st @ [line]\<rparr>, None)
      else
        (let st1 = st\<lparr>NR := NR st + 1\<rparr> in
         case sam_info_init cfg line of
           Inl e \<Rightarrow> (st1, Some e)
         | Inr r \<Rightarrow> (record_step cfg st1 r, None)))"

fun inter_sam :: "config \<Rightarrow> string list \<Rightarrow> state \<Rightarrow> state \<times> error option" where
  "inter_sam cfg [] st = (st, None)"
| "inter_sam cfg (line # rest) st =
     (case line_step cfg st line of
        (st', Some e) \<Rightarrow> (st', Some e)
      | (st', None) \<Rightarrow> inter_sam cfg rest st')"

section \<open>Class \<open>dedup_writer\<close>\<close>

definition single_write :: "dict \<Rightarrow> string list \<Rightarrow> string list" where
  "single_write d out = out @ map (\<lambda>(k, v). fst v) d"

record pair_state =
  pecount :: nat
  peRemo :: int
  written :: "string list"

definition pair_step ::
  "(string \<times> string) list \<Rightarrow> pair_state \<Rightarrow> error + pair_state" where
  \<comment> \<open>the body of the \<open>while\<close> loop; \<open>write(a + b)\<close> is recorded as the two lines\<close>
  "pair_step firstvals ps =
     (let a = fst (firstvals ! pecount ps);
          b = fst (firstvals ! (pecount ps + 1)) in
      case py_index (split_tab a) 3 of
        Inl e \<Rightarrow> Inl e
      | Inr pos \<Rightarrow>
     (case py_index (split_tab b) 7 of
        Inl e \<Rightarrow> Inl e
      | Inr pnext \<Rightarrow>
          if pos = pnext then
            Inr \<lparr>pecount = pecount ps + 2, peRemo = peRemo ps + 2,
                 written = written ps @ [a, b]\<rparr>
          else
            Inr (ps\<lparr>pecount := pecount ps + 1\<rparr>)))"

function pair_loop ::
  "(string \<times> string) list \<Rightarrow> pair_state \<Rightarrow> pair_state \<times> error option" where
  "pair_loop firstvals ps =
     (if pecount ps + 1 < length firstvals then
        (case pair_step firstvals ps of
           Inl e \<Rightarrow> (ps, Some e)
         | Inr ps' \<Rightarrow> pair_loop firstvals ps')
      else (ps, None))"
  by pat_completeness auto
termination
  by (relation "measure (\<lambda>(firstvals, ps). length firstvals - pecount ps)")
     (auto simp: pair_step_def Let_def split: sum.splits if_splits)

declare pair_loop.simps [simp del]

definition pair_write :: "dict \<Rightarrow> string list \<Rightarrow> pair_state \<times> error option" where
  \<comment> \<open>\<open>len(place) - 1\<close> in the loop test is \<open>len(firstvals) - 1\<close>\<close>
  "pair_write d out =
     pair_loop (sort (map snd d)) \<lparr>pecount = 0, peRemo = 0, written = out\<rparr>"

section \<open>The main program\<close>

record summary =
  processed :: int
  unmapped :: int
  unidentified :: int
  duplicatesRemoved :: int
  nonPaired :: "int option"
  retained :: int

datatype run = Aborted error "string list" | Finished "string list" summary

definition init_state :: state where
  "init_state = \<lparr>NR = 0, UnMap = 0, badBc = 0, place = [], dedup = []\<rparr>"

definition main :: "config \<Rightarrow> string list \<Rightarrow> run" where
  "main cfg lines =
     (case inter_sam cfg lines init_state of
        (st, Some e) \<Rightarrow> Aborted e (dedup st)
      | (st, None) \<Rightarrow>
          (let tot = 0 + int (length (place st)) in
           if \<not> pe cfg then
             Finished (single_write (place st) (dedup st))
               \<lparr>processed = NR st, unmapped = UnMap st, unidentified = badBc st,
                duplicatesRemoved = NR st - UnMap st - tot, nonPaired = None,
                retained = tot\<rparr>
           else
             (case pair_write (place st) (dedup st) of
                (ps, Some e) \<Rightarrow> Aborted e (written ps)
              | (ps, None) \<Rightarrow>
                  Finished (written ps)
                    \<lparr>processed = NR st, unmapped = UnMap st, unidentified = badBc st,
                     duplicatesRemoved = NR st - UnMap st - tot,
                     nonPaired = Some (tot - peRemo ps), retained = peRemo ps\<rparr>)))"

text \<open>
  The output file is opened for appending; the model starts it empty. The summary is
  the line the program logs at the end: \<open>retained\<close> is \<open>tot\<close> in single-end mode and
  \<open>peRemo\<close> in paired-end mode.
\<close>

subsection \<open>Writing an alignment line\<close>

fun join_tab :: "string list \<Rightarrow> string" where
  "join_tab [] = []"
| "join_tab [f] = f"
| "join_tab (f # g # fs) = f @ CHR 0x09 # join_tab (g # fs)"

definition sam_line :: "string list \<Rightarrow> string" where
  \<comment> \<open>the fields joined by tabs, with the newline that ends a line of the file\<close>
  "sam_line fs = join_tab fs @ [CHR 0x0A]"

subsection \<open>Records that collide on a key\<close>

text \<open>
  \<open>accepted cfg k line\<close>: the line is not a header, the constructor builds a record
  from it, the record passes the two tests of the loop (mapped and primary, a tag that
  is not empty) and its key is \<open>k\<close>. \<open>colliding cfg k lines\<close> are those lines of
  the stream, in stream order. \<open>retain\<close> is what the loop does to the entry of a
  key when such a line arrives.
\<close>

definition accepted :: "config \<Rightarrow> key \<Rightarrow> string \<Rightarrow> bool" where
  "accepted cfg k line =
     (\<not> startswith_at line \<and>
      (case sam_info_init cfg line of
         Inl e \<Rightarrow> False
       | Inr r \<Rightarrow> snd (self_strand r) \<noteq> None \<and> self_BC r \<noteq> [] \<and> key_of r = k))"

definition colliding :: "config \<Rightarrow> key \<Rightarrow> string list \<Rightarrow> string list" where
  "colliding cfg k lines = filter (accepted cfg k) lines"

definition retain :: "config \<Rightarrow> string \<Rightarrow> (string \<times> string) option \<Rightarrow> (string \<times> string) option" where
  "retain cfg line cur =
     (case cur of
        None \<Rightarrow> Some (line, split_tab line ! 4)
      | Some old \<Rightarrow>
          if qual cfg \<and> snd old < split_tab line ! 4 then Some (line, split_tab line ! 4)
          else Some old)"

subsection \<open>What the paired-end writer emits\<close>



subsection \<open>The tag of a line and the tags the pass accepts\<close>

text \<open>
  \<open>extracted_tag line\<close> is what \<open>barcode_get\<close> reads from the line: the part after
  the last colon of its first whitespace-separated word. \<open>tag_accepted cfg t\<close>: the tag
  is not empty and, when validation is on, it is in the known list.
\<close>

definition extracted_tag :: "string \<Rightarrow> string" where
  "extracted_tag line =
     (case py_index (split_ws line) 0 of
        Inl e \<Rightarrow> []
      | Inr name \<Rightarrow> last (split_colon name))"

definition tag_accepted :: "config \<Rightarrow> string \<Rightarrow> bool" where
  "tag_accepted cfg t = (t \<noteq> [] \<and> (if umi cfg then t \<in> set (umi_list cfg) else True))"

subsection \<open>Example lines\<close>

definition quality_mode :: config where
  "quality_mode = \<lparr>pe = False, umi = False, qual = True, umi_list = []\<rparr>"

definition first_seen_mode :: config where
  "first_seen_mode = \<lparr>pe = False, umi = False, qual = False, umi_list = []\<rparr>"

definition k1_q30 :: string where
  "k1_q30 = sam_line [''r1:AAGCTC'', ''0'', ''chr1'', ''500'', ''30'', ''76M'',
     ''*'', ''0'', ''0'', ''ACGT'', ''IIII'']"

definition k1_q40 :: string where
  "k1_q40 = sam_line [''r2:AAGCTC'', ''0'', ''chr1'', ''505'', ''40'', ''5S71M'',
     ''*'', ''0'', ''0'', ''ACGT'', ''IIII'']"

definition k2_unique :: string where
  "k2_unique = sam_line [''r3:GGCTAA'', ''16'', ''chr2'', ''700'', ''20'', ''76M'',
     ''*'', ''0'', ''0'', ''ACGT'', ''IIII'']"

definition unmapped_read :: string where
  "unmapped_read = sam_line [''r4:AAGCTC'', ''4'', ''chr1'', ''500'', ''0'', ''76M'',
     ''*'', ''0'', ''0'', ''ACGT'', ''IIII'']"

definition unmapped_star :: string where
  "unmapped_star = sam_line [''r4:AAGCTC'', ''4'', ''*'', ''0'', ''0'', ''*'',
     ''*'', ''0'', ''0'', ''ACGT'', ''IIII'']"

definition secondary_read :: string where
  "secondary_read = sam_line [''r5:AAGCTC'', ''256'', ''chr1'', ''500'', ''30'', ''76M'',
     ''*'', ''0'', ''0'', ''ACGT'', ''IIII'']"

definition k1_q9 :: string where
  "k1_q9 = sam_line [''r6:AAGCTC'', ''0'', ''chr1'', ''500'', ''9'', ''76M'',
     ''*'', ''0'', ''0'', ''ACGT'', ''IIII'']"

definition k1_q5 :: string where
  "k1_q5 = sam_line [''r7:AAGCTC'', ''0'', ''chr1'', ''500'', ''5'', ''76M'',
     ''*'', ''0'', ''0'', ''ACGT'', ''IIII'']"

definition k1_q10 :: string where
  "k1_q10 = sam_line [''r8:AAGCTC'', ''0'', ''chr1'', ''500'', ''10'', ''76M'',
     ''*'', ''0'', ''0'', ''ACGT'', ''IIII'']"

definition cigar_5M :: string where
  "cigar_5M = sam_line [''r9:AAGCTC'', ''0'', ''chr1'', ''100'', ''30'', ''5M'',
     ''*'', ''0'', ''0'', ''ACGTA'', ''IIIII'']"

definition cigar_star :: string where
  "cigar_star = sam_line [''r10:AAGCTC'', ''0'', ''chr1'', ''100'', ''30'', ''*'',
     ''*'', ''0'', ''0'', ''ACGT'', ''IIII'']"

definition clipped_5 :: string where
  "clipped_5 = sam_line [''r11:AAGCTC'', ''0'', ''chr1'', ''100'', ''30'', ''5S71M'',
     ''*'', ''0'', ''0'', ''ACGT'', ''IIII'']"

definition missing_fields :: string where
  "missing_fields = sam_line [''r12:AAGCTC'', ''0'', ''chr1'']"

definition no_tag_a :: string where
  "no_tag_a = sam_line [''r13:'', ''0'', ''chr1'', ''500'', ''30'', ''76M'',
     ''*'', ''0'', ''0'', ''ACGT'', ''IIII'']"

definition no_tag_b :: string where
  "no_tag_b = sam_line [''r14:'', ''0'', ''chr1'', ''500'', ''40'', ''76M'',
     ''*'', ''0'', ''0'', ''ACGT'', ''IIII'']"





definition validating_mode :: config where
  "validating_mode = \<lparr>pe = False, umi = True, qual = False, umi_list = [''AACCCG'', ''AAGCTC'']\<rparr>"

definition tag_known :: string where
  "tag_known = sam_line [''r30:AACCCG'', ''0'', ''chr1'', ''500'', ''30'', ''76M'',
     ''*'', ''0'', ''0'', ''ACGT'', ''IIII'']"

definition tag_unknown :: string where
  "tag_unknown = sam_line [''r31:ZZZZZZ'', ''0'', ''chr1'', ''500'', ''30'', ''76M'',
     ''*'', ''0'', ''0'', ''ACGT'', ''IIII'']"

section \<open>Basic facts\<close>

lemma bit_check_Inr: "bit_check line = Inr s \<Longrightarrow> snd s = Some []"
  by (auto simp: bit_check_def COUNT_def split: sum.splits if_splits)

lemma sam_info_init_fields:
  assumes "sam_info_init cfg line = Inr r"
  shows "self_line r = line" and "self_qual_score r = split_tab line ! 4"
    and "self_contig r = split_tab line ! 2" and "start_pos line = Inr (self_start_pos r)"
    and "bit_check line = Inr (self_strand r)" and "barcode_get cfg line = Inr (self_BC r)"
    and "snd (self_strand r) = Some []" and "6 \<le> length (split_tab line)"
  using assms
  by (auto simp: sam_info_init_def py_index_def start_pos_def dest: bit_check_Inr
           split: sum.splits if_splits)

lemma inter_sam_append:
  "inter_sam cfg (xs @ ys) st =
     (case inter_sam cfg xs st of
        (st', Some e) \<Rightarrow> (st', Some e)
      | (st', None) \<Rightarrow> inter_sam cfg ys st')"
  by (induction xs arbitrary: st) (auto split: prod.splits option.splits)

lemma soft_check_short:
  assumes "length align = 1 \<or> (length align = 2 \<and> align ! 1 \<noteq> CHR ''S'')"
  shows "soft_check align = Inl IndexError"
  using assms by (auto simp: soft_check_def py_index_def)

lemma line_step_record:
  "\<not> startswith_at line \<Longrightarrow> sam_info_init cfg line = Inr r \<Longrightarrow>
   line_step cfg st line = (record_step cfg (st\<lparr>NR := NR st + 1\<rparr>) r, None)"
  by (simp add: line_step_def)

lemma line_step_raises:
  "\<not> startswith_at line \<Longrightarrow> sam_info_init cfg line = Inl e \<Longrightarrow>
   line_step cfg st line = (st\<lparr>NR := NR st + 1\<rparr>, Some e)"
  by (simp add: line_step_def)

lemma line_step_header:
  "startswith_at line \<Longrightarrow> line_step cfg st line = (st\<lparr>dedup := dedup st @ [line]\<rparr>, None)"
  by (simp add: line_step_def)

lemma record_step_UnMap:
  "snd (self_strand r) = Some [] \<Longrightarrow> UnMap (record_step cfg st r) = UnMap st"
  by (simp add: record_step_def split: option.splits)

lemma line_step_UnMap: "UnMap (fst (line_step cfg st line)) = UnMap st"
  by (cases "sam_info_init cfg line")
     (auto simp: line_step_def Let_def record_step_UnMap dest: sam_info_init_fields(7))

lemma inter_sam_UnMap: "UnMap (fst (inter_sam cfg lines st)) = UnMap st"
proof (induction lines arbitrary: st)
  case Nil
  show ?case by simp
next
  case (Cons l ls)
  obtain st' eo where ls: "line_step cfg st l = (st', eo)" by (cases "line_step cfg st l")
  have u: "UnMap st' = UnMap st" using line_step_UnMap [of cfg st l] ls by simp
  show ?case using ls u Cons.IH [of st'] by (cases eo) simp_all
qed

lemma summary_unmapped_zero:
  "main cfg lines = Finished out s \<Longrightarrow> unmapped s = 0"
  using inter_sam_UnMap [of cfg lines init_state]
  by (auto simp: main_def Let_def init_state_def split: prod.splits option.splits if_splits)

lemma bit_check_unusable:
  assumes "1 < length (split_tab line)" and "py_int (split_tab line ! 1) = Inr flag"
    and "flag AND 4 = 4 \<or> flag AND 256 = 256"
  shows "bit_check line = Inl NameError"
  using assms by (auto simp: bit_check_def py_index_def COUNT_def)

lemma sam_info_init_unusable:
  assumes "py_int (split_tab line ! 1) = Inr flag"
    and "flag AND 4 = 4 \<or> flag AND 256 = 256"
  shows "\<exists>e. sam_info_init cfg line = Inl e"
proof (cases "sam_info_init cfg line")
  case (Inl e) then show ?thesis by blast
next
  case (Inr r)
  have "1 < length (split_tab line)" using sam_info_init_fields(8) [OF Inr] by simp
  then have "bit_check line = Inl NameError" using assms by (rule bit_check_unusable)
  then show ?thesis using sam_info_init_fields(5) [OF Inr] by simp
qed

lemma map_of_dict_set: "map_of (dict_set k v d) = (map_of d)(k \<mapsto> v)"
  by (induction d) (auto simp: fun_eq_iff)

lemma dict_get_dict_set:
  "dict_get (dict_set k v d) k' = (if k' = k then Some v else dict_get d k')"
  by (simp add: dict_get_def map_of_dict_set)

lemma dict_set_keys: "fst ` set (dict_set k v d) = insert k (fst ` set d)"
proof (induction d)
  case Nil
  show ?case by simp
next
  case (Cons e d)
  show ?case using Cons.IH by (cases e) (simp add: insert_commute)
qed

lemma distinct_dict_set:
  "distinct (map fst d) \<Longrightarrow> distinct (map fst (dict_set k v d))"
proof (induction d)
  case Nil
  show ?case by simp
next
  case (Cons e d)
  obtain k' v' where e: "e = (k', v')" by (cases e)
  show ?case
  proof (cases "k' = k")
    case True
    then show ?thesis using Cons.prems e by simp
  next
    case False
    have "k' \<notin> fst ` set (dict_set k v d)"
      using Cons.prems e False by (simp add: dict_set_keys)
    then show ?thesis using Cons e False by simp
  qed
qed

lemma record_step_get:
  assumes "snd (self_strand r) = Some []" and "self_line r = line"
    and "self_qual_score r = split_tab line ! 4"
  shows "dict_get (place (record_step cfg st r)) k =
     (if self_BC r \<noteq> [] \<and> key_of r = k then retain cfg line (dict_get (place st) k)
      else dict_get (place st) k)"
  using assms
  by (auto simp: record_step_def retain_def dict_get_dict_set split: option.splits)

lemma record_step_distinct:
  "distinct (map fst (place st)) \<Longrightarrow> distinct (map fst (place (record_step cfg st r)))"
  by (auto simp: record_step_def distinct_dict_set split: option.splits)

lemma line_step_get:
  assumes "line_step cfg st line = (st', None)"
  shows "dict_get (place st') k =
     (if accepted cfg k line then retain cfg line (dict_get (place st) k)
      else dict_get (place st) k)"
proof (cases "startswith_at line")
  case True
  then show ?thesis using assms by (auto simp: line_step_def accepted_def)
next
  case False
  show ?thesis
  proof (cases "sam_info_init cfg line")
    case (Inl e)
    then show ?thesis using assms False by (simp add: line_step_def)
  next
    case (Inr r)
    have st': "st' = record_step cfg (st\<lparr>NR := NR st + 1\<rparr>) r"
      using assms False Inr by (simp add: line_step_def)
    show ?thesis
      using record_step_get [OF sam_info_init_fields(7) [OF Inr] sam_info_init_fields(1) [OF Inr]
          sam_info_init_fields(2) [OF Inr], of cfg "st\<lparr>NR := NR st + 1\<rparr>" k]
        False Inr sam_info_init_fields(7) [OF Inr]
      by (simp add: st' accepted_def)
  qed
qed

lemma line_step_distinct:
  "distinct (map fst (place st)) \<Longrightarrow> distinct (map fst (place (fst (line_step cfg st line))))"
  by (auto simp: line_step_def Let_def record_step_distinct split: sum.splits)

lemma inter_sam_get:
  "inter_sam cfg lines st = (st', None) \<Longrightarrow>
   dict_get (place st') k = fold (retain cfg) (colliding cfg k lines) (dict_get (place st) k)"
proof (induction lines arbitrary: st)
  case Nil
  then show ?case by (simp add: colliding_def)
next
  case (Cons l ls)
  obtain s1 eo where ls: "line_step cfg st l = (s1, eo)" by (cases "line_step cfg st l")
  have eo: "eo = None" using Cons.prems ls by (cases eo) simp_all
  have rest: "inter_sam cfg ls s1 = (st', None)" using Cons.prems ls eo by simp
  show ?case
    using Cons.IH [OF rest] line_step_get [OF ls [unfolded eo], of k]
    by (simp add: colliding_def)
qed

lemma inter_sam_distinct:
  "distinct (map fst (place st)) \<Longrightarrow>
   distinct (map fst (place (fst (inter_sam cfg lines st))))"
proof (induction lines arbitrary: st)
  case Nil
  then show ?case by simp
next
  case (Cons l ls)
  obtain s1 eo where ls: "line_step cfg st l = (s1, eo)" by (cases "line_step cfg st l")
  have d: "distinct (map fst (place s1))" using line_step_distinct [OF Cons.prems, of cfg l] ls by simp
  show ?case using ls d Cons.IH [OF d] Cons.prems by (cases eo) simp_all
qed

lemma fold_retain_Some:
  "\<exists>l' q. fold (retain cfg) ls (Some v) = Some (l', q) \<and>
     ((l', q) = v \<or> (l' \<in> set ls \<and> q = split_tab l' ! 4))"
proof (induction ls arbitrary: v)
  case Nil
  show ?case by (cases v) simp
next
  case (Cons l ls)
  show ?case
  proof (cases "qual cfg \<and> snd v < split_tab l ! 4")
    case True
    then show ?thesis using Cons.IH [of "(l, split_tab l ! 4)"] by (auto simp: retain_def)
  next
    case False
    then show ?thesis using Cons.IH [of v] by (auto simp: retain_def)
  qed
qed

lemma fold_retain_first_seen:
  "\<not> qual cfg \<Longrightarrow> fold (retain cfg) ls (Some v) = Some v"
  by (induction ls) (simp_all add: retain_def)

lemma filter_key_count:
  "distinct (map fst d) \<Longrightarrow> map_of d k = Some v \<Longrightarrow> length (filter (\<lambda>e. fst e = k) d) = 1"
proof (induction d)
  case Nil
  then show ?case by simp
next
  case (Cons e d)
  show ?case
  proof (cases "fst e = k")
    case True
    have "k \<notin> fst ` set d" using Cons.prems(1) True by auto
    then have "filter (\<lambda>e. fst e = k) d = []" by (auto simp: filter_empty_conv)
    then show ?thesis using True by simp
  next
    case False
    then show ?thesis using Cons by (cases e) auto
  qed
qed





lemma pair_step_raises:
  "pair_step fv ps = Inl e \<Longrightarrow> e = IndexError"
  by (auto simp: pair_step_def Let_def py_index_def split: sum.splits if_splits)


lemma barcode_get_cases:
  assumes "barcode_get cfg line = Inr bc" and "py_index (split_ws line) 0 = Inr name"
  shows "bc = (if umi cfg \<and> last (split_colon name) \<notin> set (umi_list cfg) then []
               else last (split_colon name))"
  using assms by (auto simp: barcode_get_def Let_def split: if_splits)

subsection \<open>The position and a detected soft clip\<close>

text \<open>
  When \<open>S\<close> follows one or two leading digits of the CIGAR field, \<open>start_pos\<close> is
  the position less the number the digits write; when the field has three characters
  or more and no \<open>S\<close> at index 1 or 2, it is the position.
\<close>

lemma py_int_digit: "is_digit d \<Longrightarrow> py_int [d] = Inr (digit_val d)"
  by (auto simp: py_int_def py_strip_def int_space_def is_digit_def)

lemma py_int_two_digits:
  "is_digit d1 \<Longrightarrow> is_digit d2 \<Longrightarrow> py_int [d1, d2] = Inr (10 * digit_val d1 + digit_val d2)"
  by (auto simp: py_int_def py_strip_def int_space_def is_digit_def)

lemma digit_val_nonneg: "is_digit d \<Longrightarrow> 0 \<le> digit_val d"
  by (simp add: is_digit_def digit_val_def)

lemma soft_check_one_digit:
  "is_digit d \<Longrightarrow> soft_check (d # CHR ''S'' # rest) = Inr (digit_val d)"
  by (simp add: soft_check_def py_index_def py_int_digit)

lemma soft_check_two_digits:
  assumes "is_digit d1" and "is_digit d2"
  shows "soft_check (d1 # d2 # CHR ''S'' # rest) = Inr (10 * digit_val d1 + digit_val d2)"
proof -
  have "d2 \<noteq> CHR ''S''" using assms(2) by (auto simp: is_digit_def)
  then show ?thesis using assms by (simp add: soft_check_def py_index_def py_int_two_digits)
qed

lemma soft_check_no_clip:
  "3 \<le> length align \<Longrightarrow> align ! 1 \<noteq> CHR ''S'' \<Longrightarrow> align ! 2 \<noteq> CHR ''S'' \<Longrightarrow>
   soft_check align = Inr 0"
  by (simp add: soft_check_def py_index_def)

lemma start_pos_clip:
  assumes "6 \<le> length (split_tab line)" and "py_int (split_tab line ! 3) = Inr p"
    and "soft_check (split_tab line ! 5) = Inr k" and "0 \<le> k"
  shows "start_pos line = Inr (p - k)"
  using assms by (simp add: start_pos_def py_index_def)

lemma start_pos_detected_clip:
  assumes "6 \<le> length (split_tab line)" and "py_int (split_tab line ! 3) = Inr p"
    and "(\<exists>d rest. split_tab line ! 5 = d # CHR ''S'' # rest \<and> is_digit d \<and> k = digit_val d) \<or>
         (\<exists>d1 d2 rest. split_tab line ! 5 = d1 # d2 # CHR ''S'' # rest \<and> is_digit d1 \<and>
            is_digit d2 \<and> k = 10 * digit_val d1 + digit_val d2)"
  shows "start_pos line = Inr (p - k)"
proof -
  have "soft_check (split_tab line ! 5) = Inr k \<and> 0 \<le> k"
    using assms(3) soft_check_one_digit soft_check_two_digits digit_val_nonneg
    by (elim disjE exE conjE) (simp_all add: digit_val_nonneg)
  then show ?thesis using start_pos_clip [OF assms(1,2)] by blast
qed

lemma start_pos_no_clip:
  assumes "6 \<le> length (split_tab line)" and "py_int (split_tab line ! 3) = Inr p"
    and "3 \<le> length (split_tab line ! 5)"
    and "split_tab line ! 5 ! 1 \<noteq> CHR ''S''" and "split_tab line ! 5 ! 2 \<noteq> CHR ''S''"
  shows "start_pos line = Inr p"
  using start_pos_clip [OF assms(1,2) soft_check_no_clip [OF assms(3,4,5)]] by simp

lemma start_pos_clipped_5:
  "py_int (split_tab clipped_5 ! 3) = Inr 100 \<and> split_tab clipped_5 ! 5 = ''5S71M'' \<and>
   start_pos clipped_5 = Inr 95"
  by code_simp

subsection \<open>Every entry of the index comes from a mapped, primary record\<close>

lemma dict_set_entries: "set (dict_set k v d) \<subseteq> insert (k, v) (set d)"
proof (induction d)
  case Nil
  show ?case by simp
next
  case (Cons e d)
  show ?case using Cons.IH by (cases e) auto
qed

lemma record_step_entries:
  "set (place (record_step cfg st r)) \<subseteq>
     insert (key_of r, (self_line r, self_qual_score r)) (set (place st))"
  using dict_set_entries [of "key_of r" "(self_line r, self_qual_score r)" "place st"]
  by (auto simp: record_step_def split: option.splits)

lemma line_step_entries:
  assumes "e \<in> set (place (fst (line_step cfg st line)))"
  shows "e \<in> set (place st) \<or> (fst (snd e) = line \<and> (\<exists>r. sam_info_init cfg line = Inr r))"
proof (cases "startswith_at line")
  case True
  then show ?thesis using assms by (simp add: line_step_def)
next
  case False
  show ?thesis
  proof (cases "sam_info_init cfg line")
    case (Inl err)
    then show ?thesis using assms False by (simp add: line_step_def)
  next
    case (Inr r)
    have "e \<in> set (place (record_step cfg (st\<lparr>NR := NR st + 1\<rparr>) r))"
      using assms False Inr by (simp add: line_step_def)
    then have "e = (key_of r, (self_line r, self_qual_score r)) \<or> e \<in> set (place st)"
      using record_step_entries [of cfg "st\<lparr>NR := NR st + 1\<rparr>" r] by auto
    then show ?thesis using Inr sam_info_init_fields(1) [OF Inr] by auto
  qed
qed

lemma inter_sam_entries:
  "e \<in> set (place (fst (inter_sam cfg lines st))) \<Longrightarrow>
   e \<in> set (place st) \<or> (\<exists>r. sam_info_init cfg (fst (snd e)) = Inr r)"
proof (induction lines arbitrary: st)
  case Nil
  then show ?case by simp
next
  case (Cons l ls)
  obtain s1 eo where ls: "line_step cfg st l = (s1, eo)" by (cases "line_step cfg st l")
  have "e \<in> set (place s1) \<or> (\<exists>r. sam_info_init cfg (fst (snd e)) = Inr r)"
  proof (cases eo)
    case None
    then show ?thesis using Cons.prems ls Cons.IH [of s1] by simp
  next
    case (Some err)
    then show ?thesis using Cons.prems ls by simp
  qed
  then show ?case using line_step_entries [of e cfg st l] ls by auto
qed

lemma bit_check_flag:
  assumes "bit_check line = Inr s"
  shows "\<exists>flag. py_int (split_tab line ! 1) = Inr flag \<and> flag AND 4 \<noteq> 4 \<and> flag AND 256 \<noteq> 256"
  using assms
  by (auto simp: bit_check_def COUNT_def py_index_def split: sum.splits if_splits)

lemma index_holds_usable_only:
  assumes "(k, l, q) \<in> set (place (fst (inter_sam cfg lines init_state)))"
  shows "\<exists>flag. py_int (split_tab l ! 1) = Inr flag \<and> flag AND 4 \<noteq> 4 \<and> flag AND 256 \<noteq> 256"
proof -
  have "\<exists>r. sam_info_init cfg l = Inr r"
    using inter_sam_entries [OF assms] by (simp add: init_state_def)
  then obtain r where "sam_info_init cfg l = Inr r" by blast
  then show ?thesis using sam_info_init_fields(5) bit_check_flag by blast
qed

subsection \<open>In quality mode the entry kept is greatest in the order on strings\<close>

lemma retain_Some:
  "retain cfg l (Some v) =
     (if qual cfg \<and> snd v < split_tab l ! 4 then Some (l, split_tab l ! 4) else Some v)"
  by (simp add: retain_def)

lemma fold_retain_greatest:
  assumes "qual cfg" and "fold (retain cfg) ls (Some v) = Some w"
  shows "snd v \<le> snd w \<and> (\<forall>l \<in> set ls. split_tab l ! 4 \<le> snd w)"
  using assms(2)
proof (induction ls arbitrary: v)
  case Nil
  then show ?case by simp
next
  case (Cons l ls)
  show ?case
  proof (cases "snd v < split_tab l ! 4")
    case True
    then have "fold (retain cfg) ls (Some (l, split_tab l ! 4)) = Some w"
      using Cons.prems assms(1) by (simp add: retain_Some)
    from Cons.IH [OF this] True show ?thesis by auto
  next
    case False
    then have "fold (retain cfg) ls (Some v) = Some w"
      using Cons.prems by (simp add: retain_Some)
    from Cons.IH [OF this] False show ?thesis by auto
  qed
qed

lemma fold_retain_earliest:
  "\<forall>l \<in> set ls. \<not> snd v < split_tab l ! 4 \<Longrightarrow> fold (retain cfg) ls (Some v) = Some v"
  by (induction ls) (simp_all add: retain_Some)

lemma quality_mode_keeps_greatest_text:
  assumes "qual cfg" and "inter_sam cfg lines init_state = (st, None)"
    and "colliding cfg k lines = l # ls"
  shows "\<exists>l' q. dict_get (place st) k = Some (l', q) \<and>
           (\<forall>x \<in> set (l # ls). split_tab x ! 4 \<le> q)"
proof -
  have f: "dict_get (place st) k = fold (retain cfg) ls (Some (l, split_tab l ! 4))"
    using inter_sam_get [OF assms(2), of k] assms(3)
    by (simp add: init_state_def dict_get_def retain_def)
  obtain l' q where r: "fold (retain cfg) ls (Some (l, split_tab l ! 4)) = Some (l', q)"
    using fold_retain_Some [of cfg ls "(l, split_tab l ! 4)"] by blast
  show ?thesis using fold_retain_greatest [OF assms(1) r] f r by simp
qed

subsection \<open>Tags over a whole pass\<close>

lemma sam_info_init_BC:
  assumes "sam_info_init cfg line = Inr r"
  shows "self_BC r = (if tag_accepted cfg (extracted_tag line) then extracted_tag line else [])"
  using sam_info_init_fields(6) [OF assms]
  by (auto simp: barcode_get_def Let_def extracted_tag_def tag_accepted_def
           split: sum.splits if_splits)

lemma line_step_done:
  assumes "line_step cfg st line = (st', None)" and "\<not> startswith_at line"
  shows "\<exists>r. sam_info_init cfg line = Inr r \<and> st' = record_step cfg (st\<lparr>NR := NR st + 1\<rparr>) r"
  using assms by (auto simp: line_step_def Let_def split: sum.splits)

lemma record_step_badBc:
  "snd (self_strand r) = Some [] \<Longrightarrow>
   badBc (record_step cfg st r) = badBc st + (if self_BC r = [] then 1 else 0)"
  by (simp add: record_step_def split: option.splits)

lemma line_step_badBc:
  assumes "line_step cfg st line = (st', None)"
  shows "badBc st' = badBc st +
     (if \<not> startswith_at line \<and> \<not> tag_accepted cfg (extracted_tag line) then 1 else 0)"
proof (cases "startswith_at line")
  case True
  then show ?thesis using assms by (auto simp: line_step_def)
next
  case False
  obtain r where r: "sam_info_init cfg line = Inr r"
    and st': "st' = record_step cfg (st\<lparr>NR := NR st + 1\<rparr>) r"
    using line_step_done [OF assms False] by blast
  have bc: "self_BC r = [] \<longleftrightarrow> \<not> tag_accepted cfg (extracted_tag line)"
    using sam_info_init_BC [OF r] by (auto simp: tag_accepted_def)
  show ?thesis
    using record_step_badBc [OF sam_info_init_fields(7) [OF r], of cfg "st\<lparr>NR := NR st + 1\<rparr>"]
      st' bc False by simp
qed

lemma inter_sam_badBc:
  "inter_sam cfg lines st = (st', None) \<Longrightarrow>
   badBc st' = badBc st +
     int (length (filter (\<lambda>l. \<not> startswith_at l \<and> \<not> tag_accepted cfg (extracted_tag l)) lines))"
proof (induction lines arbitrary: st)
  case Nil
  then show ?case by simp
next
  case (Cons l ls)
  obtain s1 eo where ls: "line_step cfg st l = (s1, eo)" by (cases "line_step cfg st l")
  have eo: "eo = None" using Cons.prems ls by (cases eo) simp_all
  have rest: "inter_sam cfg ls s1 = (st', None)" using Cons.prems ls eo by simp
  show ?case
    using Cons.IH [OF rest] line_step_badBc [OF ls [unfolded eo]] by simp
qed

lemma inter_sam_all_built:
  "inter_sam cfg lines st = (st', None) \<Longrightarrow> l \<in> set lines \<Longrightarrow> \<not> startswith_at l \<Longrightarrow>
   \<exists>r. sam_info_init cfg l = Inr r"
proof (induction lines arbitrary: st)
  case Nil
  then show ?case by simp
next
  case (Cons x xs)
  obtain s1 eo where ls: "line_step cfg st x = (s1, eo)" by (cases "line_step cfg st x")
  have eo: "eo = None" using Cons.prems(1) ls by (cases eo) simp_all
  have rest: "inter_sam cfg xs s1 = (st', None)" using Cons.prems(1) ls eo by simp
  show ?case
  proof (cases "l = x")
    case True
    then show ?thesis using line_step_done [OF ls [unfolded eo]] Cons.prems(3) by blast
  next
    case False
    then show ?thesis using Cons.IH [OF rest] Cons.prems(2,3) by simp
  qed
qed

lemma fold_retain_not_None:
  "cur \<noteq> None \<or> ls \<noteq> [] \<Longrightarrow> fold (retain cfg) ls cur \<noteq> None"
proof (induction ls arbitrary: cur)
  case Nil
  then show ?case by simp
next
  case (Cons l ls)
  have "retain cfg l cur \<noteq> None" by (simp add: retain_def split: option.splits)
  then show ?case using Cons.IH [of "retain cfg l cur"] by simp
qed

lemma record_step_new_entry:
  assumes "e \<in> set (place (record_step cfg st r))" and "e \<notin> set (place st)"
  shows "e = (key_of r, (self_line r, self_qual_score r)) \<and> self_BC r \<noteq> []"
proof -
  have ne: "place (record_step cfg st r) \<noteq> place st" using assms by auto
  have bc: "self_BC r \<noteq> []" using ne by (auto simp: record_step_def split: if_splits)
  have "e = (key_of r, (self_line r, self_qual_score r))"
    using assms record_step_entries [of cfg st r] by auto
  then show ?thesis using bc by simp
qed

lemma line_step_entry_origin:
  assumes "e \<in> set (place (fst (line_step cfg st line)))" and "e \<notin> set (place st)"
  shows "\<not> startswith_at line \<and> fst (snd e) = line \<and>
         (\<exists>r. sam_info_init cfg line = Inr r \<and> self_BC r \<noteq> [] \<and> fst e = key_of r)"
proof (cases "startswith_at line")
  case True
  then show ?thesis using assms by (simp add: line_step_def)
next
  case False
  show ?thesis
  proof (cases "sam_info_init cfg line")
    case (Inl err)
    then show ?thesis using assms False by (simp add: line_step_def)
  next
    case (Inr r)
    have "e \<in> set (place (record_step cfg (st\<lparr>NR := NR st + 1\<rparr>) r))"
      using assms(1) False Inr by (simp add: line_step_def)
    then have "e = (key_of r, (self_line r, self_qual_score r)) \<and> self_BC r \<noteq> []"
      using record_step_new_entry [of e cfg "st\<lparr>NR := NR st + 1\<rparr>" r] assms(2) by simp
    then show ?thesis using False Inr sam_info_init_fields(1) [OF Inr] by simp
  qed
qed

lemma inter_sam_entry_origin:
  "e \<in> set (place (fst (inter_sam cfg lines st))) \<Longrightarrow> e \<notin> set (place st) \<Longrightarrow>
   fst (snd e) \<in> set lines \<and> \<not> startswith_at (fst (snd e)) \<and>
   (\<exists>r. sam_info_init cfg (fst (snd e)) = Inr r \<and> self_BC r \<noteq> [] \<and> fst e = key_of r)"
proof (induction lines arbitrary: st)
  case Nil
  then show ?case by simp
next
  case (Cons l ls)
  obtain s1 eo where ls: "line_step cfg st l = (s1, eo)" by (cases "line_step cfg st l")
  show ?case
  proof (cases "e \<in> set (place s1)")
    case True
    then show ?thesis using line_step_entry_origin [of e cfg st l] ls Cons.prems(2) by simp
  next
    case False
    have "e \<in> set (place (fst (inter_sam cfg ls s1)))"
      using Cons.prems(1) ls False by (cases eo) simp_all
    then show ?thesis using Cons.IH [OF _ False] by simp
  qed
qed

lemma line_step_tag:
  assumes "\<not> startswith_at line" and "sam_info_init cfg line = Inr r"
    and "py_index (split_ws line) 0 = Inr name"
  shows "(umi cfg \<and> last (split_colon name) \<in> set (umi_list cfg) \<longrightarrow>
            self_BC r = last (split_colon name)) \<and>
         (umi cfg \<and> last (split_colon name) \<notin> set (umi_list cfg) \<longrightarrow>
            self_BC r = [] \<and>
            line_step cfg st line =
              (st\<lparr>NR := NR st + 1, badBc := badBc st + 1\<rparr>, None)) \<and>
         (\<not> umi cfg \<longrightarrow> self_BC r = last (split_colon name)) \<and>
         (self_BC r \<noteq> [] \<longrightarrow>
            badBc (fst (line_step cfg st line)) = badBc st \<and>
            dict_get (place (fst (line_step cfg st line))) (key_of r) =
              retain cfg line (dict_get (place st) (key_of r)))"
proof -
  have bc: "self_BC r = (if umi cfg \<and> last (split_colon name) \<notin> set (umi_list cfg) then []
               else last (split_colon name))"
    using barcode_get_cases [OF sam_info_init_fields(6) [OF assms(2)] assms(3)] .
  have u: "snd (self_strand r) = Some []" using sam_info_init_fields(7) [OF assms(2)] .
  have ls: "line_step cfg st line = (record_step cfg (st\<lparr>NR := NR st + 1\<rparr>) r, None)"
    using assms(1,2) by (rule line_step_record)
  have bad: "line_step cfg st line = (st\<lparr>NR := NR st + 1, badBc := badBc st + 1\<rparr>, None)"
    if "self_BC r = []"
    using ls u that by (simp add: record_step_def)
  have keep: "badBc (fst (line_step cfg st line)) = badBc st" if "self_BC r \<noteq> []"
    using ls u that by (simp add: record_step_def split: option.splits)
  have get: "dict_get (place (fst (line_step cfg st line))) (key_of r) =
              retain cfg line (dict_get (place st) (key_of r))" if "self_BC r \<noteq> []"
    using record_step_get [OF u sam_info_init_fields(1) [OF assms(2)]
        sam_info_init_fields(2) [OF assms(2)], of cfg "st\<lparr>NR := NR st + 1\<rparr>" "key_of r"] ls that
    by simp
  show ?thesis using bc bad keep get by simp
qed

section \<open>The soft-clip probe on short CIGAR strings\<close>

text \<open>
  C10. \<open>soft_check\<close> reads \<open>align[1]\<close> and, when that is not \<open>S\<close>, \<open>align[2]\<close>.
  For every alignment line (not a header, at least six tab-separated fields, an integer
  position) whose CIGAR field has length 1, or length 2 with a second character other
  than \<open>S\<close>, the read is out of range: \<open>soft_check\<close> raises \<open>IndexError\<close>, so do
  \<open>start_pos\<close> and the constructor, and the pass stops at that line with the
  exception. The record is counted in \<open>NR\<close> only; the program ends without writing a
  retained record or a summary.
\<close>

theorem soft_check_not_total:
  assumes "\<not> startswith_at line"
    and "6 \<le> length (split_tab line)"
    and "py_int (split_tab line ! 3) = Inr p"
    and "length (split_tab line ! 5) = 1 \<or>
         (length (split_tab line ! 5) = 2 \<and> split_tab line ! 5 ! 1 \<noteq> CHR ''S'')"
  shows "soft_check (split_tab line ! 5) = Inl IndexError \<and>
         start_pos line = Inl IndexError \<and>
         sam_info_init cfg line = Inl IndexError \<and>
         line_step cfg st line = (st\<lparr>NR := NR st + 1\<rparr>, Some IndexError) \<and>
         (inter_sam cfg pre st0 = (st, None) \<longrightarrow>
            inter_sam cfg (pre @ line # post) st0 =
              (st\<lparr>NR := NR st + 1\<rparr>, Some IndexError)) \<and>
         (inter_sam cfg pre init_state = (st, None) \<longrightarrow>
            main cfg (pre @ line # post) = Aborted IndexError (dedup st))"
proof -
  have sc: "soft_check (split_tab line ! 5) = Inl IndexError"
    using assms(4) by (rule soft_check_short)
  have sp: "start_pos line = Inl IndexError"
    using assms(2,3) sc by (simp add: start_pos_def py_index_def)
  have si: "sam_info_init cfg line = Inl IndexError"
    using assms(2) sp by (simp add: sam_info_init_def py_index_def)
  have ls: "line_step cfg st line = (st\<lparr>NR := NR st + 1\<rparr>, Some IndexError)"
    using assms(1) si by (simp add: line_step_def)
  show ?thesis
    using sc sp si ls by (simp add: inter_sam_append main_def)
qed

theorem soft_check_not_total_witness:
  "\<not> startswith_at cigar_star \<and> 6 \<le> length (split_tab cigar_star) \<and>
   py_int (split_tab cigar_star ! 3) = Inr 100 \<and> split_tab cigar_star ! 5 = ''*'' \<and>
   inter_sam quality_mode [k1_q30] init_state =
     (\<lparr>NR = 1, UnMap = 0, badBc = 0,
       place = [((''AAGCTC'', 500, ''+'', ''chr1''), (k1_q30, ''30''))], dedup = []\<rparr>, None) \<and>
   soft_check ''*'' = Inl IndexError \<and>
   inter_sam quality_mode ([k1_q30] @ cigar_star # [k2_unique]) init_state =
     (\<lparr>NR = 2, UnMap = 0, badBc = 0,
       place = [((''AAGCTC'', 500, ''+'', ''chr1''), (k1_q30, ''30''))], dedup = []\<rparr>,
      Some IndexError) \<and>
   main quality_mode ([k1_q30] @ cigar_star # [k2_unique]) = Aborted IndexError []"
proof -
  have a: "\<not> startswith_at cigar_star" by code_simp
  have b: "6 \<le> length (split_tab cigar_star)" by code_simp
  have c: "py_int (split_tab cigar_star ! 3) = Inr 100" by code_simp
  have d: "split_tab cigar_star ! 5 = ''*''" by code_simp
  have e: "inter_sam quality_mode [k1_q30] init_state =
     (\<lparr>NR = 1, UnMap = 0, badBc = 0,
       place = [((''AAGCTC'', 500, ''+'', ''chr1''), (k1_q30, ''30''))], dedup = []\<rparr>, None)"
    by code_simp
  have f: "length (split_tab cigar_star ! 5) = 1 \<or>
         (length (split_tab cigar_star ! 5) = 2 \<and> split_tab cigar_star ! 5 ! 1 \<noteq> CHR ''S'')"
    by (simp add: d)
  let ?st = "\<lparr>NR = 1, UnMap = 0, badBc = 0,
       place = [((''AAGCTC'', 500, ''+'', ''chr1''), (k1_q30, ''30''))], dedup = []\<rparr>"
  note T = soft_check_not_total [OF a b c f, of quality_mode ?st "[k1_q30]" init_state
      "[k2_unique]"]
  show ?thesis
    using T a b c d e by (simp del: inter_sam.simps)
qed

section \<open>The mapping quality is text\<close>

text \<open>
  C9. The constructor stores field 5 of the line (\<open>MAPQ\<close>) as the string it is, and
  the pass decides a replacement by \<open><\<close> on these strings. In quality mode, on every
  stream the pass reads to its end in which exactly two records \<open>a\<close> and then \<open>b\<close>
  collide on a key, the entry of the key holds \<open>b\<close> when the \<open>MAPQ\<close> field of \<open>a\<close>
  is smaller than that of \<open>b\<close> in the order on strings, and \<open>a\<close> otherwise. So for
  \<open>30\<close> and then \<open>9\<close> the record with \<open>9\<close> replaces the record with the greater
  number 30, and for \<open>9\<close> and then \<open>30\<close> the record with \<open>9\<close> stays.
\<close>

theorem mapq_compared_as_text:
  assumes "qual cfg" and "inter_sam cfg lines init_state = (st, None)"
    and "colliding cfg k lines = [a, b]"
  shows "(\<exists>ra rb. sam_info_init cfg a = Inr ra \<and> sam_info_init cfg b = Inr rb \<and>
            key_of ra = k \<and> key_of rb = k \<and>
            self_qual_score ra = split_tab a ! 4 \<and> self_qual_score rb = split_tab b ! 4) \<and>
         dict_get (place st) k =
           Some (if split_tab a ! 4 < split_tab b ! 4 then (b, split_tab b ! 4)
                 else (a, split_tab a ! 4)) \<and>
         (split_tab a ! 4 = ''30'' \<and> split_tab b ! 4 = ''9'' \<longrightarrow>
            dict_get (place st) k = Some (b, ''9'')) \<and>
         (split_tab a ! 4 = ''9'' \<and> split_tab b ! 4 = ''30'' \<longrightarrow>
            dict_get (place st) k = Some (a, ''9'')) \<and>
         (lines = [a, b] \<longrightarrow>
            st = init_state\<lparr>NR := 2,
                   place := [(k, if split_tab a ! 4 < split_tab b ! 4 then (b, split_tab b ! 4)
                                 else (a, split_tab a ! 4))]\<rparr>)"
proof -
  have aa: "accepted cfg k a" and ab: "accepted cfg k b"
  proof -
    have "a \<in> set (filter (accepted cfg k) lines)" "b \<in> set (filter (accepted cfg k) lines)"
      using assms(3) by (simp_all add: colliding_def)
    then show "accepted cfg k a" "accepted cfg k b" by simp_all
  qed
  obtain ra where ra: "sam_info_init cfg a = Inr ra" and ka: "key_of ra = k"
    and ba: "self_BC ra \<noteq> []" and ha: "\<not> startswith_at a"
    using aa by (auto simp: accepted_def split: sum.splits)
  obtain rb where rb: "sam_info_init cfg b = Inr rb" and kb: "key_of rb = k"
    and bb: "self_BC rb \<noteq> []" and hb: "\<not> startswith_at b"
    using ab by (auto simp: accepted_def split: sum.splits)
  have qa: "self_qual_score ra = split_tab a ! 4" using sam_info_init_fields(2) [OF ra] .
  have qb: "self_qual_score rb = split_tab b ! 4" using sam_info_init_fields(2) [OF rb] .
  have la: "self_line ra = a" using sam_info_init_fields(1) [OF ra] .
  have lb: "self_line rb = b" using sam_info_init_fields(1) [OF rb] .
  have ua: "snd (self_strand ra) = Some []" using sam_info_init_fields(7) [OF ra] .
  have ub: "snd (self_strand rb) = Some []" using sam_info_init_fields(7) [OF rb] .
  have one: "\<exists>ra rb. sam_info_init cfg a = Inr ra \<and> sam_info_init cfg b = Inr rb \<and>
            key_of ra = k \<and> key_of rb = k \<and>
            self_qual_score ra = split_tab a ! 4 \<and> self_qual_score rb = split_tab b ! 4"
    using ra rb ka kb qa qb by blast
  have two: "dict_get (place st) k =
           Some (if split_tab a ! 4 < split_tab b ! 4 then (b, split_tab b ! 4)
                 else (a, split_tab a ! 4))"
    using inter_sam_get [OF assms(2), of k] assms(1,3)
    by (simp add: init_state_def dict_get_def retain_def)
  have lt: "(''30'' :: string) < ''9''" by simp
  have nlt: "\<not> (''9'' :: string) < ''30''" by simp
  have three: "dict_get (place st) k = Some (b, ''9'')"
    if "split_tab a ! 4 = ''30'' \<and> split_tab b ! 4 = ''9''"
    using two that lt by simp
  have four: "dict_get (place st) k = Some (a, ''9'')"
    if "split_tab a ! 4 = ''9'' \<and> split_tab b ! 4 = ''30''"
    using two that nlt by simp
  have five: "st = init_state\<lparr>NR := 2,
                   place := [(k, if split_tab a ! 4 < split_tab b ! 4 then (b, split_tab b ! 4)
                                 else (a, split_tab a ! 4))]\<rparr>"
    if l: "lines = [a, b]"
  proof -
    have s1: "line_step cfg init_state a =
        (init_state\<lparr>NR := 1, place := [(k, (a, split_tab a ! 4))]\<rparr>, None)"
      using ha ra ka ba qa la ua
      by (simp add: line_step_def record_step_def init_state_def dict_get_def)
    have s2: "line_step cfg (init_state\<lparr>NR := 1, place := [(k, (a, split_tab a ! 4))]\<rparr>) b =
        (init_state\<lparr>NR := 2,
                   place := [(k, if split_tab a ! 4 < split_tab b ! 4 then (b, split_tab b ! 4)
                                 else (a, split_tab a ! 4))]\<rparr>, None)"
      using hb rb kb bb qb lb ub assms(1)
      by (simp add: line_step_def record_step_def init_state_def dict_get_def)
    show ?thesis using assms(2) l s1 s2 by simp
  qed
  show ?thesis using one two three four five by blast
qed

theorem mapq_compared_as_text_witness:
  "qual quality_mode \<and>
   split_tab k1_q30 ! 4 = ''30'' \<and> split_tab k1_q9 ! 4 = ''9'' \<and>
   colliding quality_mode (''AAGCTC'', 500, ''+'', ''chr1'') [k1_q30, k2_unique, k1_q9] =
     [k1_q30, k1_q9] \<and>
   inter_sam quality_mode [k1_q30, k2_unique, k1_q9] init_state =
     (\<lparr>NR = 3, UnMap = 0, badBc = 0,
       place = [((''AAGCTC'', 500, ''+'', ''chr1''), (k1_q9, ''9'')),
                ((''GGCTAA'', 700, ''-'', ''chr2''), (k2_unique, ''20''))],
       dedup = []\<rparr>, None) \<and>
   colliding quality_mode (''AAGCTC'', 500, ''+'', ''chr1'') [k1_q9, k1_q30] =
     [k1_q9, k1_q30] \<and>
   inter_sam quality_mode [k1_q9, k1_q30] init_state =
     (\<lparr>NR = 2, UnMap = 0, badBc = 0,
       place = [((''AAGCTC'', 500, ''+'', ''chr1''), (k1_q9, ''9''))], dedup = []\<rparr>, None)"
proof -
  let ?k = "(''AAGCTC'', 500 :: int, ''+'', ''chr1'')"
  let ?s1 = "\<lparr>NR = 3, UnMap = 0, badBc = 0,
       place = [(?k, (k1_q9, ''9'')), ((''GGCTAA'', 700, ''-'', ''chr2''), (k2_unique, ''20''))],
       dedup = []\<rparr>"
  let ?s2 = "\<lparr>NR = 2, UnMap = 0, badBc = 0, place = [(?k, (k1_q9, ''9''))], dedup = []\<rparr>"
  have q: "qual quality_mode" by (simp add: quality_mode_def)
  have fa: "split_tab k1_q30 ! 4 = ''30''" by code_simp
  have fb: "split_tab k1_q9 ! 4 = ''9''" by code_simp
  have c1: "colliding quality_mode ?k [k1_q30, k2_unique, k1_q9] = [k1_q30, k1_q9]"
    by code_simp
  have c2: "colliding quality_mode ?k [k1_q9, k1_q30] = [k1_q9, k1_q30]" by code_simp
  have r1: "inter_sam quality_mode [k1_q30, k2_unique, k1_q9] init_state = (?s1, None)"
    by code_simp
  have r2: "inter_sam quality_mode [k1_q9, k1_q30] init_state = (?s2, None)" by code_simp
  note T1 = mapq_compared_as_text [OF q r1 c1]
  note T2 = mapq_compared_as_text [OF q r2 c2]
  have "dict_get (place ?s1) ?k = Some (k1_q9, ''9'')" using T1 fa fb by blast
  moreover have "dict_get (place ?s2) ?k = Some (k1_q9, ''9'')" using T2 fa fb by blast
  ultimately show ?thesis using q fa fb c1 c2 r1 r2 by (simp del: inter_sam.simps)
qed

section \<open>Quality-based retention\<close>

text \<open>
  C1. With \<open>-q\<close>, the record kept for a key should have a mapping quality at least
  that of every other record with the key. The program compares the \<open>MAPQ\<close> fields as
  strings, so it fails on numbers of different lengths: for two colliding records with
  \<open>MAPQ\<close> 5 and then 10, the test \<open>'5' < '10'\<close> is false and the record with quality
  5 is kept, although 5 < 10.
\<close>

theorem lower_mapq_retained:
  "split_tab k1_q5 ! 4 = ''5'' \<and> split_tab k1_q10 ! 4 = ''10'' \<and>
   py_int ''5'' = Inr 5 \<and> py_int ''10'' = Inr 10 \<and>
   main quality_mode [k1_q5, k1_q10] =
     Finished [k1_q5]
       \<lparr>processed = 2, unmapped = 0, unidentified = 0, duplicatesRemoved = 1,
        nonPaired = None, retained = 1\<rparr>"
  by code_simp

section \<open>The end-to-end scenario\<close>

text \<open>
  C3. Four records in quality mode: two with key (\<open>AAGCTC\<close>, 500, \<open>+\<close>, \<open>chr1\<close>) and
  qualities 30 and 40, one with another key, one unmapped. The run should keep two
  records and report processed 4, unmapped 1, retained 2, duplicates removed 1. The
  program stops at the unmapped record instead: \<open>bit_check\<close> reads the global
  \<open>COUNT\<close>, which nothing defines, and \<open>NameError\<close> ends the run before any record
  or summary is written. An unmapped record written with \<open>*\<close> for its CIGAR stops
  the run earlier still, in \<open>soft_check\<close>. Without the unmapped record the run keeps
  the quality-40 record and the other key's record.
\<close>

theorem scenario_aborts_at_unmapped_read:
  "main quality_mode [k1_q30, k1_q40, k2_unique, unmapped_read] = Aborted NameError [] \<and>
   main quality_mode [k1_q30, k1_q40, k2_unique, unmapped_star] = Aborted IndexError [] \<and>
   main quality_mode [k1_q30, k1_q40, k2_unique] =
     Finished [k1_q40, k2_unique]
       \<lparr>processed = 3, unmapped = 0, unidentified = 0, duplicatesRemoved = 1,
        nonPaired = None, retained = 2\<rparr>"
  by code_simp

section \<open>Position adjusted for a leading soft clip\<close>

text \<open>
  C4. A record whose CIGAR has no leading soft clip should get its raw position as
  adjusted position. For the record with position 100 and CIGAR \<open>5M\<close> the program
  computes no position: \<open>soft_check\<close> reads \<open>align[2]\<close> of a string of length 2 and
  raises \<open>IndexError\<close>, and the run ends there.
\<close>

theorem short_cigar_has_no_position:
  "py_int (split_tab cigar_5M ! 3) = Inr 100 \<and> split_tab cigar_5M ! 5 = ''5M'' \<and>
   soft_check ''5M'' = Inl IndexError \<and> start_pos cigar_5M = Inl IndexError \<and>
   main first_seen_mode [cigar_5M] = Aborted IndexError []"
  by code_simp

section \<open>Unmapped and secondary reads\<close>

text \<open>
  C5. A record with flag bit 4 or bit 256 set should be counted in \<open>UnMap\<close> and left out
  of the index and of the output. The program never counts one: for such a record
  \<open>bit_check\<close> evaluates \<open>COUNT\<close> in its log call, which raises \<open>NameError\<close>, and
  the pass stops at that record with \<open>UnMap\<close> still 0.
\<close>

theorem unusable_read_aborts_pass:
  "bit_check unmapped_read = Inl NameError \<and>
   bit_check secondary_read = Inl NameError \<and>
   inter_sam first_seen_mode [k1_q30, unmapped_read, k2_unique] init_state =
     (\<lparr>NR = 2, UnMap = 0, badBc = 0,
       place = [((''AAGCTC'', 500, ''+'', ''chr1''), (k1_q30, ''30''))], dedup = []\<rparr>,
      Some NameError) \<and>
   main first_seen_mode [k1_q30, unmapped_read, k2_unique] = Aborted NameError [] \<and>
   main first_seen_mode [k1_q30, secondary_read, k2_unique] = Aborted NameError []"
  by code_simp

section \<open>Lines that do not parse\<close>

text \<open>
  C7, as amended. For every input line that is not a header and on which the record
  constructor raises (a line with missing fields, for one), the pass stops at that line
  with the exception: the line is counted in \<open>NR\<close>, the index stays as the lines
  before left it, no later line is read, and the run ends without writing a retained
  record.
\<close>

theorem malformed_line_stops_pass:
  assumes "\<not> startswith_at line" and "sam_info_init cfg line = Inl e"
    and "inter_sam cfg pre st0 = (st, None)"
  shows "inter_sam cfg (pre @ line # post) st0 = (st\<lparr>NR := NR st + 1\<rparr>, Some e) \<and>
         place (fst (inter_sam cfg (pre @ line # post) st0)) = place st \<and>
         (st0 = init_state \<longrightarrow> main cfg (pre @ line # post) = Aborted e (dedup st))"
proof -
  have r: "inter_sam cfg (pre @ line # post) st0 = (st\<lparr>NR := NR st + 1\<rparr>, Some e)"
    using assms by (simp add: inter_sam_append line_step_raises)
  have m: "main cfg (pre @ line # post) = Aborted e (dedup st)" if "st0 = init_state"
    using r that by (simp add: main_def del: inter_sam.simps)
  show ?thesis using r m by simp
qed

theorem malformed_line_stops_pass_witness:
  "\<not> startswith_at missing_fields \<and>
   sam_info_init quality_mode missing_fields = Inl IndexError \<and>
   inter_sam quality_mode [k1_q40] init_state =
     (\<lparr>NR = 1, UnMap = 0, badBc = 0,
       place = [((''AAGCTC'', 500, ''+'', ''chr1''), (k1_q40, ''40''))], dedup = []\<rparr>, None) \<and>
   inter_sam quality_mode ([k1_q40] @ missing_fields # [k2_unique]) init_state =
     (\<lparr>NR = 2, UnMap = 0, badBc = 0,
       place = [((''AAGCTC'', 500, ''+'', ''chr1''), (k1_q40, ''40''))], dedup = []\<rparr>,
      Some IndexError) \<and>
   main quality_mode ([k1_q40] @ missing_fields # [k2_unique]) = Aborted IndexError []"
proof -
  let ?st = "\<lparr>NR = 1, UnMap = 0, badBc = 0,
       place = [((''AAGCTC'', 500, ''+'', ''chr1''), (k1_q40, ''40''))], dedup = []\<rparr>"
  have a: "\<not> startswith_at missing_fields" by code_simp
  have b: "sam_info_init quality_mode missing_fields = Inl IndexError" by code_simp
  have c: "inter_sam quality_mode [k1_q40] init_state = (?st, None)" by code_simp
  note T = malformed_line_stops_pass [OF a b c, of "[k2_unique]"]
  show ?thesis using T a b c by (simp del: inter_sam.simps)
qed

text \<open>
  C7 as stated fails: the line \<open>r12:AAGCTC\<close>, \<open>0\<close>, \<open>chr1\<close> has three fields, the
  constructor raises \<open>IndexError\<close> on it, and the well-formed line after it is never
  processed.
\<close>

theorem malformed_line_stops_pass_example:
  "inter_sam first_seen_mode [missing_fields, k1_q30] init_state =
     (\<lparr>NR = 1, UnMap = 0, badBc = 0, place = [], dedup = []\<rparr>, Some IndexError) \<and>
   main first_seen_mode [missing_fields, k1_q30] = Aborted IndexError []"
  by code_simp

section \<open>One record per key\<close>

text \<open>
  C2, as amended. On every stream the pass reads to its end, the index has at most one
  entry per key, and for every key the records that are usable, carry a tag that is not
  empty (after validation) and have that key collapse to exactly one entry, which holds one
  of them; a key without such a record has no entry. When quality-based retention is
  off, the entry holds the first such record of the stream, with its \<open>MAPQ\<close> field.
\<close>

theorem colliding_records_collapse:
  assumes "inter_sam cfg lines init_state = (st, None)"
  shows "distinct (map fst (place st)) \<and>
         (\<forall>k. colliding cfg k lines = [] \<longrightarrow> dict_get (place st) k = None) \<and>
         (\<forall>k l ls. colliding cfg k lines = l # ls \<longrightarrow>
            length (filter (\<lambda>e. fst e = k) (place st)) = 1 \<and>
            (\<exists>l' \<in> set (l # ls). dict_get (place st) k = Some (l', split_tab l' ! 4)) \<and>
            (\<not> qual cfg \<longrightarrow> dict_get (place st) k = Some (l, split_tab l ! 4)))"
proof -
  have d: "distinct (map fst (place st))"
    using inter_sam_distinct [of init_state cfg lines] assms by (simp add: init_state_def)
  have g: "dict_get (place st) k = fold (retain cfg) (colliding cfg k lines) None" for k
    using inter_sam_get [OF assms, of k] by (simp add: init_state_def dict_get_def)
  have e: "dict_get (place st) k = None" if "colliding cfg k lines = []" for k
    using g [of k] that by simp
  have n: "length (filter (\<lambda>e. fst e = k) (place st)) = 1 \<and>
            (\<exists>l' \<in> set (l # ls). dict_get (place st) k = Some (l', split_tab l' ! 4)) \<and>
            (\<not> qual cfg \<longrightarrow> dict_get (place st) k = Some (l, split_tab l ! 4))"
    if c: "colliding cfg k lines = l # ls" for k l ls
  proof -
    have f: "dict_get (place st) k = fold (retain cfg) ls (Some (l, split_tab l ! 4))"
      using g [of k] c by (simp add: retain_def)
    obtain l' q where r: "dict_get (place st) k = Some (l', q)"
      and m: "(l', q) = (l, split_tab l ! 4) \<or> (l' \<in> set ls \<and> q = split_tab l' ! 4)"
      using fold_retain_Some [of cfg ls "(l, split_tab l ! 4)"] f by auto
    have one: "length (filter (\<lambda>e. fst e = k) (place st)) = 1"
      using filter_key_count [OF d] r by (simp add: dict_get_def)
    have mem: "\<exists>l' \<in> set (l # ls). dict_get (place st) k = Some (l', split_tab l' ! 4)"
      using r m by auto
    have fs: "dict_get (place st) k = Some (l, split_tab l ! 4)" if "\<not> qual cfg"
      using f fold_retain_first_seen [OF that] by simp
    show ?thesis using one mem fs by blast
  qed
  show ?thesis using d e n by blast
qed

theorem colliding_records_collapse_witness:
  "inter_sam first_seen_mode [k1_q30, k1_q40, k2_unique] init_state =
     (\<lparr>NR = 3, UnMap = 0, badBc = 0,
       place = [((''AAGCTC'', 500, ''+'', ''chr1''), (k1_q30, ''30'')),
                ((''GGCTAA'', 700, ''-'', ''chr2''), (k2_unique, ''20''))],
       dedup = []\<rparr>, None) \<and>
   colliding first_seen_mode (''AAGCTC'', 500, ''+'', ''chr1'') [k1_q30, k1_q40, k2_unique] =
     [k1_q30, k1_q40] \<and>
   \<not> qual first_seen_mode \<and>
   length (filter (\<lambda>e. fst e = (''AAGCTC'', 500, ''+'', ''chr1''))
     [((''AAGCTC'', 500, ''+'', ''chr1''), (k1_q30, ''30'')),
      ((''GGCTAA'', 700, ''-'', ''chr2''), (k2_unique, ''20''))]) = 1 \<and>
   dict_get [((''AAGCTC'', 500, ''+'', ''chr1''), (k1_q30, ''30'')),
             ((''GGCTAA'', 700, ''-'', ''chr2''), (k2_unique, ''20''))]
     (''AAGCTC'', 500, ''+'', ''chr1'') = Some (k1_q30, split_tab k1_q30 ! 4)"
proof -
  let ?st = "\<lparr>NR = 3, UnMap = 0, badBc = 0,
       place = [((''AAGCTC'', 500, ''+'', ''chr1''), (k1_q30, ''30'')),
                ((''GGCTAA'', 700, ''-'', ''chr2''), (k2_unique, ''20''))],
       dedup = []\<rparr>"
  have run: "inter_sam first_seen_mode [k1_q30, k1_q40, k2_unique] init_state = (?st, None)"
    by code_simp
  have coll: "colliding first_seen_mode (''AAGCTC'', 500, ''+'', ''chr1'')
      [k1_q30, k1_q40, k2_unique] = [k1_q30, k1_q40]"
    by code_simp
  have q: "\<not> qual first_seen_mode" by (simp add: first_seen_mode_def)
  note T = colliding_records_collapse [OF run]
  from T coll q have
    "length (filter (\<lambda>e. fst e = (''AAGCTC'', 500, ''+'', ''chr1'')) (place ?st)) = 1 \<and>
     dict_get (place ?st) (''AAGCTC'', 500, ''+'', ''chr1'') = Some (k1_q30, split_tab k1_q30 ! 4)"
    by blast
  then show ?thesis using run coll q by (simp del: inter_sam.simps)
qed

text \<open>
  C2 as stated fails for usable records without a tag: the lines \<open>no_tag_a\<close> and
  \<open>no_tag_b\<close> have flag 0 and the same key (an empty tag, 500, \<open>+\<close>, \<open>chr1\<close>), and
  neither is retained; both are counted as unidentified barcodes. It also fails on a
  stream the pass does not read to its end: after two colliding records, a line with
  missing fields ends the run, and no record is written.
\<close>

theorem untagged_records_not_retained:
  "sam_info_init first_seen_mode no_tag_a =
     Inr \<lparr>self_line = no_tag_a, self_contig = ''chr1'', self_start_pos = 500,
          self_qual_score = ''30'', self_strand = (''+'', Some []), self_BC = []\<rparr> \<and>
   sam_info_init first_seen_mode no_tag_b =
     Inr \<lparr>self_line = no_tag_b, self_contig = ''chr1'', self_start_pos = 500,
          self_qual_score = ''40'', self_strand = (''+'', Some []), self_BC = []\<rparr> \<and>
   main first_seen_mode [no_tag_a, no_tag_b] =
     Finished []
       \<lparr>processed = 2, unmapped = 0, unidentified = 2, duplicatesRemoved = 2,
        nonPaired = None, retained = 0\<rparr> \<and>
   main first_seen_mode [k1_q30, k1_q40, missing_fields] = Aborted IndexError []"
  by code_simp

section \<open>The paired-end writer\<close>



section \<open>Tag validation\<close>

text \<open>
  C8, as amended. On every input stream the pass reads to its end: a record whose tag is
  accepted (not empty and, with validation on, in the known list) keeps that tag, and
  its key has an entry in the index at the end of the pass; a record whose tag is not
  accepted (with validation on, a tag that is not in the list) gets the empty tag, is
  in no entry of the index, and is counted in \<open>badBc\<close>, which is the number the
  summary reports as unidentified barcodes; every entry of the index holds a line of
  the stream with an accepted tag, under that tag. With validation off every tag that
  is not empty is accepted as it is.
\<close>

theorem tag_validation:
  assumes "inter_sam cfg lines init_state = (st, None)"
  shows "badBc st =
           int (length (filter (\<lambda>l. \<not> startswith_at l \<and> \<not> tag_accepted cfg (extracted_tag l))
             lines)) \<and>
         (\<forall>l \<in> set lines. \<not> startswith_at l \<and> tag_accepted cfg (extracted_tag l) \<longrightarrow>
            (\<exists>r. sam_info_init cfg l = Inr r \<and> self_BC r = extracted_tag l \<and>
                 dict_get (place st) (key_of r) \<noteq> None)) \<and>
         (\<forall>l \<in> set lines. \<not> startswith_at l \<and> \<not> tag_accepted cfg (extracted_tag l) \<longrightarrow>
            (\<exists>r. sam_info_init cfg l = Inr r \<and> self_BC r = []) \<and>
            (\<forall>k q. (k, (l, q)) \<notin> set (place st))) \<and>
         (\<forall>k l q. (k, (l, q)) \<in> set (place st) \<longrightarrow>
            l \<in> set lines \<and> tag_accepted cfg (extracted_tag l) \<and> fst k = extracted_tag l) \<and>
         (\<forall>out s. main cfg lines = Finished out s \<longrightarrow> unidentified s = badBc st)"
proof -
  have a: "badBc st =
           int (length (filter (\<lambda>l. \<not> startswith_at l \<and> \<not> tag_accepted cfg (extracted_tag l))
             lines))"
    using inter_sam_badBc [OF assms] by (simp add: init_state_def)
  have origin: "l \<in> set lines \<and> \<not> startswith_at l \<and>
      (\<exists>r. sam_info_init cfg l = Inr r \<and> self_BC r \<noteq> [] \<and> k = key_of r)"
    if "(k, (l, q)) \<in> set (place st)" for k l q
    using inter_sam_entry_origin [of "(k, (l, q))" cfg lines init_state] that assms
    by (simp add: init_state_def)
  have b: "\<exists>r. sam_info_init cfg l = Inr r \<and> self_BC r = extracted_tag l \<and>
                 dict_get (place st) (key_of r) \<noteq> None"
    if l: "l \<in> set lines" and h: "\<not> startswith_at l" and t: "tag_accepted cfg (extracted_tag l)"
    for l
  proof -
    obtain r where r: "sam_info_init cfg l = Inr r"
      using inter_sam_all_built [OF assms l h] by blast
    have bc: "self_BC r = extracted_tag l" using sam_info_init_BC [OF r] t by simp
    have ne: "self_BC r \<noteq> []" using bc t by (simp add: tag_accepted_def)
    have acc: "accepted cfg (key_of r) l"
      using h r ne sam_info_init_fields(7) [OF r] by (simp add: accepted_def)
    have "colliding cfg (key_of r) lines \<noteq> []"
      using l acc by (auto simp: colliding_def filter_empty_conv)
    then have "dict_get (place st) (key_of r) \<noteq> None"
      using inter_sam_get [OF assms, of "key_of r"] fold_retain_not_None by simp
    then show ?thesis using r bc by blast
  qed
  have c: "(\<exists>r. sam_info_init cfg l = Inr r \<and> self_BC r = []) \<and>
            (\<forall>k q. (k, (l, q)) \<notin> set (place st))"
    if l: "l \<in> set lines" and h: "\<not> startswith_at l"
      and t: "\<not> tag_accepted cfg (extracted_tag l)" for l
  proof -
    obtain r where r: "sam_info_init cfg l = Inr r"
      using inter_sam_all_built [OF assms l h] by blast
    have bc: "self_BC r = []" using sam_info_init_BC [OF r] t by simp
    have "(k, (l, q)) \<notin> set (place st)" for k q
      using origin [of k l q] r bc by auto
    then show ?thesis using r bc by blast
  qed
  have d: "l \<in> set lines \<and> tag_accepted cfg (extracted_tag l) \<and> fst k = extracted_tag l"
    if e: "(k, (l, q)) \<in> set (place st)" for k l q
  proof -
    obtain r where l: "l \<in> set lines" and r: "sam_info_init cfg l = Inr r"
      and ne: "self_BC r \<noteq> []" and k: "k = key_of r"
      using origin [OF e] by blast
    have t: "tag_accepted cfg (extracted_tag l)"
      using sam_info_init_BC [OF r] ne by (auto split: if_splits)
    have "fst k = extracted_tag l" using sam_info_init_BC [OF r] t k by (simp add: key_of_def)
    then show ?thesis using l t by simp
  qed
  have m: "unidentified s = badBc st" if "main cfg lines = Finished out s" for out s
    using that assms
    by (auto simp: main_def Let_def split: if_splits prod.splits option.splits)
  show ?thesis using a b c d m by blast
qed

theorem tag_validation_witness:
  "inter_sam validating_mode [tag_known, tag_unknown, k1_q30] init_state =
     (\<lparr>NR = 3, UnMap = 0, badBc = 1,
       place = [((''AACCCG'', 500, ''+'', ''chr1''), (tag_known, ''30'')),
                ((''AAGCTC'', 500, ''+'', ''chr1''), (k1_q30, ''30''))],
       dedup = []\<rparr>, None) \<and>
   \<not> startswith_at tag_known \<and> \<not> startswith_at tag_unknown \<and>
   extracted_tag tag_known = ''AACCCG'' \<and> extracted_tag tag_unknown = ''ZZZZZZ'' \<and>
   tag_accepted validating_mode ''AACCCG'' \<and> \<not> tag_accepted validating_mode ''ZZZZZZ'' \<and>
   filter (\<lambda>l. \<not> startswith_at l \<and> \<not> tag_accepted validating_mode (extracted_tag l))
     [tag_known, tag_unknown, k1_q30] = [tag_unknown] \<and>
   (\<exists>r. sam_info_init validating_mode tag_known = Inr r \<and> self_BC r = ''AACCCG'' \<and>
        dict_get [((''AACCCG'', 500, ''+'', ''chr1''), (tag_known, ''30'')),
                  ((''AAGCTC'', 500, ''+'', ''chr1''), (k1_q30, ''30''))] (key_of r) \<noteq> None) \<and>
   (\<exists>r. sam_info_init validating_mode tag_unknown = Inr r \<and> self_BC r = []) \<and>
   main validating_mode [tag_known, tag_unknown, k1_q30] =
     Finished [tag_known, k1_q30]
       \<lparr>processed = 3, unmapped = 0, unidentified = 1, duplicatesRemoved = 1,
        nonPaired = None, retained = 2\<rparr> \<and>
   \<not> umi first_seen_mode \<and> tag_accepted first_seen_mode ''ZZZZZZ'' \<and>
   inter_sam first_seen_mode [tag_unknown] init_state =
     (\<lparr>NR = 1, UnMap = 0, badBc = 0,
       place = [((''ZZZZZZ'', 500, ''+'', ''chr1''), (tag_unknown, ''30''))],
       dedup = []\<rparr>, None)"
proof -
  let ?d = "[((''AACCCG'', 500, ''+'', ''chr1''), (tag_known, ''30'')),
            ((''AAGCTC'', 500, ''+'', ''chr1''), (k1_q30, ''30''))]"
  let ?st = "\<lparr>NR = 3, UnMap = 0, badBc = 1, place = ?d, dedup = []\<rparr>"
  let ?sz = "\<lparr>NR = 1, UnMap = 0, badBc = 0,
       place = [((''ZZZZZZ'', 500, ''+'', ''chr1''), (tag_unknown, ''30''))], dedup = []\<rparr>"
  have run: "inter_sam validating_mode [tag_known, tag_unknown, k1_q30] init_state = (?st, None)"
    by code_simp
  have runz: "inter_sam first_seen_mode [tag_unknown] init_state = (?sz, None)"
    by code_simp
  have hk: "\<not> startswith_at tag_known" by code_simp
  have hu: "\<not> startswith_at tag_unknown" by code_simp
  have tk: "extracted_tag tag_known = ''AACCCG''" by code_simp
  have tu: "extracted_tag tag_unknown = ''ZZZZZZ''" by code_simp
  have ak: "tag_accepted validating_mode ''AACCCG''" by code_simp
  have au: "\<not> tag_accepted validating_mode ''ZZZZZZ''" by code_simp
  have az: "tag_accepted first_seen_mode ''ZZZZZZ''" by code_simp
  have nm: "\<not> umi first_seen_mode" by (simp add: first_seen_mode_def)
  have fl: "filter (\<lambda>l. \<not> startswith_at l \<and> \<not> tag_accepted validating_mode (extracted_tag l))
     [tag_known, tag_unknown, k1_q30] = [tag_unknown]"
    by code_simp
  have m: "main validating_mode [tag_known, tag_unknown, k1_q30] =
     Finished [tag_known, k1_q30]
       \<lparr>processed = 3, unmapped = 0, unidentified = 1, duplicatesRemoved = 1,
        nonPaired = None, retained = 2\<rparr>"
    by code_simp
  note T = tag_validation [OF run]
  note Z = tag_validation [OF runz]
  have mk: "tag_known \<in> set [tag_known, tag_unknown, k1_q30]" by simp
  have mu: "tag_unknown \<in> set [tag_known, tag_unknown, k1_q30]" by simp
  have b: "\<exists>r. sam_info_init validating_mode tag_known = Inr r \<and> self_BC r = ''AACCCG'' \<and>
        dict_get ?d (key_of r) \<noteq> None"
  proof -
    from T have "\<forall>l \<in> set [tag_known, tag_unknown, k1_q30].
        \<not> startswith_at l \<and> tag_accepted validating_mode (extracted_tag l) \<longrightarrow>
        (\<exists>r. sam_info_init validating_mode l = Inr r \<and> self_BC r = extracted_tag l \<and>
             dict_get (place ?st) (key_of r) \<noteq> None)"
      by blast
    with mk hk ak tk show ?thesis by (auto simp del: set_simps)
  qed
  have c: "\<exists>r. sam_info_init validating_mode tag_unknown = Inr r \<and> self_BC r = []"
  proof -
    from T have "\<forall>l \<in> set [tag_known, tag_unknown, k1_q30].
        \<not> startswith_at l \<and> \<not> tag_accepted validating_mode (extracted_tag l) \<longrightarrow>
        (\<exists>r. sam_info_init validating_mode l = Inr r \<and> self_BC r = []) \<and>
        (\<forall>k q. (k, (l, q)) \<notin> set (place ?st))"
      by blast
    with mu hu au tu show ?thesis by (auto simp del: set_simps)
  qed
  have z: "badBc ?sz = int (length (filter (\<lambda>l. \<not> startswith_at l \<and>
      \<not> tag_accepted first_seen_mode (extracted_tag l)) [tag_unknown]))"
    using Z by blast
  show ?thesis
    using run runz hk hu tk tu ak au az nm fl m b c z by (simp del: inter_sam.simps)
qed

text \<open>
  C8 as stated fails on a stream the pass does not read to its end: after a line with
  missing fields the run stops, the record with the known tag \<open>AACCCG\<close> is not
  retained and the record with the tag \<open>ZZZZZZ\<close> is not counted.
\<close>

theorem tag_checks_lost_on_abort:
  "extracted_tag tag_known = ''AACCCG'' \<and> extracted_tag tag_unknown = ''ZZZZZZ'' \<and>
   umi validating_mode \<and> umi_list validating_mode = [''AACCCG'', ''AAGCTC''] \<and>
   inter_sam validating_mode [missing_fields, tag_known, tag_unknown] init_state =
     (\<lparr>NR = 1, UnMap = 0, badBc = 0, place = [], dedup = []\<rparr>, Some IndexError) \<and>
   main validating_mode [missing_fields, tag_known, tag_unknown] = Aborted IndexError []"
  by code_simp

end
